theory Spec2Isabelle
  imports Main "HOL-Library.Word"
begin

unbundle bit_operations_syntax

section \<open>Values shared by both modules\<close>

text \<open>
  The repository holds two modules that drive Winsock through ctypes:
  \<^verbatim>\<open>win_asyncio_afunix.py\<close> (classes \<^verbatim>\<open>AFUnixStream\<close>, \<^verbatim>\<open>AFUnixServerWin\<close> and the
  coroutine \<^verbatim>\<open>open_unix_connection_win\<close>) and \<^verbatim>\<open>win_unix_asyncio.py\<close> (class
  \<^verbatim>\<open>WindowsUnixServer\<close> and the coroutine \<^verbatim>\<open>open_unix_connection\<close>).

  A Python \<^verbatim>\<open>str\<close> is a list of code points, a \<^verbatim>\<open>bytes\<close> object a list of bytes.
  Exceptions are values: every function returns \<open>error + 'a\<close>.  \<^verbatim>\<open>OSError(err, msg)\<close>
  is \<open>OSError err\<close>; \<^verbatim>\<open>OSError(msg)\<close>, which has no errno, is \<open>OSErrorMsg\<close> with the
  numbers its message is formatted from.  \<open>Exception\<close> stands for whatever a
  handler or the scheduler raises.
\<close>

type_synonym byte = "8 word"
type_synonym pystr = "nat list"

datatype error =
    ValueError string
  | OSError int
  | OSErrorMsg "int list"
  | RuntimeError string
  | UnicodeEncodeError
  | TypeError
  | AssertionError
  | Exception

definition SUN_PATH_MAX :: nat where
  "SUN_PATH_MAX = 108"

definition UNIX_PATH_MAX :: nat where
  "UNIX_PATH_MAX = 108"

subsection \<open>\<^verbatim>\<open>str.encode("utf-8")\<close>\<close>

text \<open>
  One code point becomes one to four bytes; a surrogate (and a number that is no code
  point) cannot be encoded, and \<^verbatim>\<open>encode\<close> raises \<^verbatim>\<open>UnicodeEncodeError\<close>.
\<close>

definition utf8_char :: "nat \<Rightarrow> byte list option" where
  "utf8_char c =
     (if c < 0x80 then Some [of_nat c]
      else if c < 0x800 then
        Some [of_nat (0xC0 + c div 0x40), of_nat (0x80 + c mod 0x40)]
      else if 0xD800 \<le> c \<and> c < 0xE000 then None
      else if c < 0x10000 then
        Some [of_nat (0xE0 + c div 0x1000), of_nat (0x80 + c div 0x40 mod 0x40),
              of_nat (0x80 + c mod 0x40)]
      else if c < 0x110000 then
        Some [of_nat (0xF0 + c div 0x40000), of_nat (0x80 + c div 0x1000 mod 0x40),
              of_nat (0x80 + c div 0x40 mod 0x40), of_nat (0x80 + c mod 0x40)]
      else None)"

fun utf8_encode :: "pystr \<Rightarrow> error + byte list" where
  "utf8_encode [] = Inr []"
| "utf8_encode (c # cs) =
     (case utf8_char c of
        None \<Rightarrow> Inl UnicodeEncodeError
      | Some bs \<Rightarrow>
          (case utf8_encode cs of
             Inl e \<Rightarrow> Inl e
           | Inr rest \<Rightarrow> Inr (bs @ rest)))"

subsection \<open>The ctypes structure \<^verbatim>\<open>Sockaddr\<close>\<close>

text \<open>
  \<^verbatim>\<open>class Sockaddr(ctypes.Structure)\<close> has a \<^verbatim>\<open>c_ushort\<close> family and a \<^verbatim>\<open>c_char * 108\<close>
  buffer (named \<^verbatim>\<open>sun_path\<close> in one module and \<^verbatim>\<open>sun_data\<close> in the other).
  \<^verbatim>\<open>Sockaddr()\<close> is zero-initialised.  Reading a \<^verbatim>\<open>c_char\<close> array field gives the
  bytes before the first NUL; assigning \<^verbatim>\<open>bytes\<close> to it copies the bytes before the
  first NUL of the value and a terminating NUL when there is room, leaves the rest
  of the buffer as it was, and raises \<^verbatim>\<open>ValueError\<close> when the value does not fit.
\<close>

record sockaddr_un =
  sun_family :: "16 word"
  sun_path :: "byte list"

definition Sockaddr :: sockaddr_un where
  "Sockaddr = \<lparr>sun_family = 0, sun_path = replicate 108 0\<rparr>"

definition c_ushort :: "int \<Rightarrow> 16 word" where
  "c_ushort v = word_of_int v"

definition char_array_get :: "byte list \<Rightarrow> byte list" where
  "char_array_get buf = takeWhile (\<lambda>b. b \<noteq> 0) buf"

definition char_array_set :: "byte list \<Rightarrow> byte list \<Rightarrow> error + byte list" where
  "char_array_set buf v =
     (let size = length (takeWhile (\<lambda>b. b \<noteq> 0) v); cap = length buf in
      if size < cap then Inr (take size v @ [0] @ drop (size + 1) buf)
      else if size > cap then Inl (ValueError ''bytes too long'')
      else Inr (take size v))"

text \<open>
  \<^verbatim>\<open>tmp[:n] = enc\<close> on a bytearray replaces the first \<open>n\<close> bytes (or all of them,
  when there are fewer) by \<open>enc\<close>; \<^verbatim>\<open>tmp[i:i] = b"\x00"\<close> inserts one zero byte at
  index \<open>i\<close> (at the end, when the array is shorter).
\<close>

definition slice_assign :: "byte list \<Rightarrow> nat \<Rightarrow> byte list \<Rightarrow> byte list" where
  "slice_assign tmp n enc = enc @ drop n tmp"

definition insert_zero :: "byte list \<Rightarrow> nat \<Rightarrow> byte list" where
  "insert_zero tmp i = take i tmp @ [0] @ drop i tmp"

text \<open>
  The three statements shared by \<^verbatim>\<open>AFUnixServerWin.__init__\<close>,
  \<^verbatim>\<open>open_unix_connection_win\<close> and \<^verbatim>\<open>WindowsUnixServer.start\<close>:
  \<^verbatim>\<open>tmp = bytearray(addr.sun_path); tmp[:len(enc)] = enc; addr.sun_path = bytes(tmp)\<close>.
\<close>

definition store_path :: "sockaddr_un \<Rightarrow> byte list \<Rightarrow> error + sockaddr_un" where
  "store_path addr enc =
     (let tmp = char_array_get (sun_path addr);
          tmp = slice_assign tmp (length enc) enc
      in case char_array_set (sun_path addr) tmp of
           Inl e \<Rightarrow> Inl e
         | Inr buf \<Rightarrow> Inr (addr\<lparr>sun_path := buf\<rparr>))"

text \<open>
  \<^verbatim>\<open>open_unix_connection\<close> first runs
  \<^verbatim>\<open>for i in range(UNIX_PATH_MAX): tmp[i:i] = b"\x00"\<close>.
\<close>

definition store_path_cleared :: "sockaddr_un \<Rightarrow> byte list \<Rightarrow> error + sockaddr_un" where
  "store_path_cleared addr enc =
     (let tmp = char_array_get (sun_path addr);
          tmp = foldl insert_zero tmp [0..<UNIX_PATH_MAX];
          tmp = slice_assign tmp (length enc) enc
      in case char_array_set (sun_path addr) tmp of
           Inl e \<Rightarrow> Inl e
         | Inr buf \<Rightarrow> Inr (addr\<lparr>sun_path := buf\<rparr>))"

text \<open>
  Building the address: lines 155 to 163 and 269 to 277 of \<^verbatim>\<open>win_asyncio_afunix.py\<close>,
  lines 146 to 154 and 283 to 296 of \<^verbatim>\<open>win_unix_asyncio.py\<close>.  \<open>fam\<close> is the value
  of \<^verbatim>\<open>socket.AF_UNIX\<close>.  What a caller does between the length check and the
  \<^verbatim>\<open>raise\<close> (closing its socket) is in the caller's model.
\<close>

definition path_too_long :: error where
  "path_too_long = ValueError ''AF_UNIX path too long (max 107 bytes)''"

definition socket_path_too_long :: error where
  "socket_path_too_long = ValueError ''socket path too long''"

definition encode_afunix :: "int \<Rightarrow> pystr \<Rightarrow> error + sockaddr_un" where
  "encode_afunix fam path =
     (let addr = Sockaddr\<lparr>sun_family := c_ushort fam\<rparr> in
      case utf8_encode path of
        Inl e \<Rightarrow> Inl e
      | Inr enc \<Rightarrow>
          if length enc \<ge> SUN_PATH_MAX then Inl path_too_long
          else store_path addr enc)"

definition encode_start :: "int \<Rightarrow> pystr \<Rightarrow> error + sockaddr_un" where
  "encode_start fam path =
     (let sockaddr = Sockaddr\<lparr>sun_family := c_ushort fam\<rparr> in
      case utf8_encode path of
        Inl e \<Rightarrow> Inl e
      | Inr enc \<Rightarrow>
          if length enc \<ge> UNIX_PATH_MAX then Inl socket_path_too_long
          else store_path sockaddr enc)"

definition encode_open :: "int \<Rightarrow> pystr \<Rightarrow> error + sockaddr_un" where
  "encode_open fam path =
     (let sockaddr = Sockaddr\<lparr>sun_family := c_ushort fam\<rparr> in
      case utf8_encode path of
        Inl e \<Rightarrow> Inl e
      | Inr enc \<Rightarrow>
          if length enc \<ge> UNIX_PATH_MAX then Inl socket_path_too_long
          else store_path_cleared sockaddr enc)"


section \<open>Native handles, calls and traces\<close>

text \<open>
  \<^verbatim>\<open>SOCKET_T\<close> is \<^verbatim>\<open>c_uint64\<close> on a 64-bit interpreter, which is the one modelled;
  \<^verbatim>\<open>INVALID_SOCKET = SOCKET_T(-1).value\<close>.  An event handle is a number, zero for
  the \<^verbatim>\<open>NULL\<close> that \<^verbatim>\<open>WSACreateEvent\<close> returns when it fails.
\<close>

type_synonym socket_t = "64 word"

definition INVALID_SOCKET :: socket_t where
  "INVALID_SOCKET = - 1"

definition FD_ACCEPT :: int where
  "FD_ACCEPT = 0x08"

definition FD_CONNECT :: int where
  "FD_CONNECT = 0x10"

definition FD_CLOSE :: int where
  "FD_CLOSE = 0x20"

definition FD_CONNECT_BIT :: nat where
  "FD_CONNECT_BIT = 4"

definition WSAEWOULDBLOCK :: int where
  "WSAEWOULDBLOCK = 10035"

text \<open>
  What a function does to the world is its trace: the calls it makes on sockets,
  events, the filesystem and the scheduler, in order.  What the world answers is an
  argument of the model (a record of answers).  Calls whose result the source ignores
  and which the source does not guard (\<^verbatim>\<open>socket.socket\<close>, \<^verbatim>\<open>setblocking\<close>,
  \<^verbatim>\<open>sock.close\<close> outside \<^verbatim>\<open>AFUnixStream.close\<close>, \<^verbatim>\<open>closesocket\<close>, \<^verbatim>\<open>WSACloseEvent\<close>, \<^verbatim>\<open>WSAResetEvent\<close>) are
  taken to return.
\<close>

datatype action =
    Unlink pystr
  | NewSocket socket_t
  | SetBlocking socket_t
  | Bind socket_t sockaddr_un
  | Listen socket_t int
  | CreateEvent
  | EventSelect socket_t int
  | Connect socket_t sockaddr_un
  | WaitForHandle
  | EnumNetworkEvents socket_t
  | Accept socket_t
  | WrapSocket socket_t
  | CallHandler socket_t
  | CreateTask socket_t
  | SockRecv socket_t nat
  | SockSendall socket_t "byte list"
  | Shutdown socket_t
  | CloseSock socket_t
  | CloseEvent
  | ResetEvent
  | CreateLoopTask
  | WSAStartup
  | PyConnect socket_t pystr
  | WsSocket
  | CloseSocket socket_t
  | CloseHandle socket_t
  | ConnectAcceptedSocket socket_t
  | Sleep

definition check_zero :: "int \<Rightarrow> int \<Rightarrow> error option" where
  "check_zero ret last_error =
     (if ret \<noteq> 0 then Some (OSError last_error) else None)"

definition AF_UNIX_or_1 :: "int option \<Rightarrow> int" where
  "AF_UNIX_or_1 attr = (case attr of None \<Rightarrow> 1 | Some v \<Rightarrow> v)"

section \<open>\<^verbatim>\<open>win_asyncio_afunix.py\<close>\<close>

subsection \<open>\<^verbatim>\<open>AFUnixStream\<close>\<close>

record AFUnixStream =
  stream_sock :: socket_t
  stream_closed :: bool

definition AFUnixStream_init :: "socket_t \<Rightarrow> AFUnixStream" where
  "AFUnixStream_init fd = \<lparr>stream_sock = fd, stream_closed = False\<rparr>"

text \<open>\<open>sock_recv\<close> is what \<^verbatim>\<open>loop.sock_recv(self.sock, n)\<close> gives when awaited.\<close>

definition AFUnixStream_recv ::
  "(nat \<Rightarrow> error + byte list) \<Rightarrow> AFUnixStream \<Rightarrow> nat \<Rightarrow> (error + byte list) \<times> action list" where
  "AFUnixStream_recv sock_recv s n =
     (if stream_closed s then (Inr [], [])
      else (sock_recv n, [SockRecv (stream_sock s) n]))"

definition AFUnixStream_sendall ::
  "(byte list \<Rightarrow> error option) \<Rightarrow> AFUnixStream \<Rightarrow> byte list \<Rightarrow> error option \<times> action list" where
  "AFUnixStream_sendall sock_sendall s data =
     (if stream_closed s then (Some (RuntimeError ''sendall on closed AFUnixStream''), [])
      else (sock_sendall data, [SockSendall (stream_sock s) data]))"

text \<open>
  \<^verbatim>\<open>close\<close>: an \<^verbatim>\<open>OSError\<close> of \<^verbatim>\<open>shutdown\<close> is swallowed, so whether it raises
  (\<open>shutdown_raises\<close>) changes nothing.  \<open>close_error\<close> is the errno of the
  \<^verbatim>\<open>OSError\<close> that \<^verbatim>\<open>self.sock.close()\<close> raises, when it does: the flag is then
  not set.
\<close>

definition AFUnixStream_close ::
  "bool \<Rightarrow> int option \<Rightarrow> AFUnixStream \<Rightarrow> error option \<times> AFUnixStream \<times> action list" where
  "AFUnixStream_close shutdown_raises close_error s =
     (if \<not> stream_closed s then
        (case close_error of
           Some e \<Rightarrow> (Some (OSError e), s, [Shutdown (stream_sock s), CloseSock (stream_sock s)])
         | None \<Rightarrow>
             (None, s\<lparr>stream_closed := True\<rparr>,
              [Shutdown (stream_sock s), CloseSock (stream_sock s)]))
      else (None, s, []))"

subsection \<open>\<^verbatim>\<open>AFUnixServerWin\<close>\<close>

record AFUnixServerWin =
  srv_path :: pystr
  srv_backlog :: int
  srv_unlink_existing :: bool
  srv_sock :: socket_t
  srv_task :: "nat option"
  srv_closed :: bool
  srv_accept_event :: "nat option"



text \<open>
  \<^verbatim>\<open>start\<close>: the scheduler's tasks are a list of task numbers; \<^verbatim>\<open>asyncio.create_task\<close>
  appends a new one.
\<close>

definition AFUnixServerWin_start ::
  "AFUnixServerWin \<Rightarrow> nat list \<Rightarrow> (error + AFUnixServerWin) \<times> nat list" where
  "AFUnixServerWin_start srv tasks =
     (if srv_task srv \<noteq> None then (Inl (RuntimeError ''Server already started''), tasks)
      else (Inr (srv\<lparr>srv_task := Some (length tasks)\<rparr>), tasks @ [length tasks]))"

definition AFUnixServerWin_close ::
  "bool \<Rightarrow> AFUnixServerWin \<Rightarrow> pystr set \<Rightarrow> AFUnixServerWin \<times> pystr set \<times> action list" where
  "AFUnixServerWin_close unlink_raises srv fs =
     (let t1 = [CloseSock (srv_sock srv)]
               @ (case srv_accept_event srv of
                    None \<Rightarrow> []
                  | Some ev \<Rightarrow> if ev \<noteq> 0 then [CloseEvent] else []);
          srv1 = srv\<lparr>srv_closed := True,
                     srv_accept_event :=
                       (case srv_accept_event srv of
                          None \<Rightarrow> None
                        | Some ev \<Rightarrow> if ev \<noteq> 0 then None else Some ev)\<rparr>
      in if srv_unlink_existing srv \<and> srv_path srv \<in> fs then
           (srv1, if unlink_raises then fs else fs - {srv_path srv},
            t1 @ [Unlink (srv_path srv)])
         else (srv1, fs, t1))"

text \<open>Any sequence of \<^verbatim>\<open>start\<close> and \<^verbatim>\<open>close\<close> calls on one server; a caller that
  gets the \<^verbatim>\<open>RuntimeError\<close> of \<^verbatim>\<open>start\<close> goes on.\<close>

datatype server_call = Start | Close bool

fun run_calls ::
  "server_call list \<Rightarrow> AFUnixServerWin \<times> pystr set \<times> nat list \<Rightarrow>
     AFUnixServerWin \<times> pystr set \<times> nat list" where
  "run_calls [] st = st"
| "run_calls (Start # cs) (srv, fs, tasks) =
     (case AFUnixServerWin_start srv tasks of
        (Inl e, tasks') \<Rightarrow> run_calls cs (srv, fs, tasks')
      | (Inr srv', tasks') \<Rightarrow> run_calls cs (srv', fs, tasks'))"
| "run_calls (Close unlink_raises # cs) (srv, fs, tasks) =
     (case AFUnixServerWin_close unlink_raises srv fs of
        (srv', fs', t) \<Rightarrow> run_calls cs (srv', fs', tasks))"

subsection \<open>\<^verbatim>\<open>AFUnixServerWin._accept_loop\<close>\<close>

text \<open>
  The handler \<^verbatim>\<open>client_connected_cb(stream)\<close> returns a coroutine (which becomes a
  task), returns something else, or raises.  One wake-up of the loop is what the
  world answers after \<^verbatim>\<open>wait_for_handle\<close>: whether the wait raised, the result of
  \<^verbatim>\<open>WSAEnumNetworkEvents\<close>, the event mask, the values the successive calls of
  \<^verbatim>\<open>ws2_32.accept\<close> return (\<^verbatim>\<open>INVALID_SOCKET\<close> once the list is used up), and
  the flag \<^verbatim>\<open>self._closed\<close> when the loop condition is read next.
\<close>

datatype cb_result = ReturnsCoroutine | ReturnsValue | Raises

record wakeup =
  wk_wait_raises :: bool
  wk_enum :: int
  wk_enum_error :: int
  wk_lNetworkEvents :: int
  wk_accepts :: "socket_t list"
  wk_closed_after :: bool

datatype step = Continue | Break | Raise error

datatype outcome = Returned | Raised error | Suspended

text \<open>
  The inner \<^verbatim>\<open>while True\<close>: accept all queued connections.  When the handler
  raises, the new stream is closed (that close is taken to return) and the exception
  goes on.
\<close>

fun accept_all :: "socket_t \<Rightarrow> (socket_t \<Rightarrow> cb_result) \<Rightarrow> socket_t list \<Rightarrow> step \<times> action list" where
  "accept_all fd cb [] = (Continue, [Accept fd])"
| "accept_all fd cb (client_fd # rest) =
     (if client_fd = INVALID_SOCKET then (Continue, [Accept fd])
      else
        let t = [Accept fd, WrapSocket client_fd, SetBlocking client_fd, CallHandler client_fd]
        in case cb client_fd of
             Raises \<Rightarrow>
               (Raise Exception,
                t @ snd (snd (AFUnixStream_close False None (AFUnixStream_init client_fd))))
           | ReturnsCoroutine \<Rightarrow>
               (case accept_all fd cb rest of
                  (r, t') \<Rightarrow> (r, t @ [CreateTask client_fd] @ t'))
           | ReturnsValue \<Rightarrow>
               (case accept_all fd cb rest of (r, t') \<Rightarrow> (r, t @ t')))"

text \<open>The body of \<^verbatim>\<open>while not self._closed\<close>, once.\<close>

definition accept_iteration ::
  "socket_t \<Rightarrow> (socket_t \<Rightarrow> cb_result) \<Rightarrow> wakeup \<Rightarrow> step \<times> action list" where
  "accept_iteration fd cb w =
     (if wk_wait_raises w then (Raise Exception, [WaitForHandle])
      else
        case check_zero (wk_enum w) (wk_enum_error w) of
          Some e \<Rightarrow> (Raise e, [WaitForHandle, EnumNetworkEvents fd])
        | None \<Rightarrow>
            if wk_lNetworkEvents w AND FD_CLOSE \<noteq> 0 then
              (Break, [WaitForHandle, EnumNetworkEvents fd])
            else if wk_lNetworkEvents w AND FD_ACCEPT \<noteq> 0 then
              (case accept_all fd cb (wk_accepts w) of
                 (r, t) \<Rightarrow> (r, [WaitForHandle, EnumNetworkEvents fd] @ t))
            else (Continue, [WaitForHandle, EnumNetworkEvents fd]))"

text \<open>
  The \<^verbatim>\<open>while\<close> loop over the wake-ups the scheduler delivers.  When there are no
  more, the task stays suspended in \<^verbatim>\<open>wait_for_handle\<close>.
\<close>

fun accept_while ::
  "socket_t \<Rightarrow> (socket_t \<Rightarrow> cb_result) \<Rightarrow> bool \<Rightarrow> wakeup list \<Rightarrow> outcome \<times> action list" where
  "accept_while fd cb closed ws =
     (if closed then (Returned, [])
      else
        case ws of
          [] \<Rightarrow> (Suspended, [WaitForHandle])
        | w # rest \<Rightarrow>
            (case accept_iteration fd cb w of
               (Break, t) \<Rightarrow> (Returned, t)
             | (Raise e, t) \<Rightarrow> (Raised e, t)
             | (Continue, t) \<Rightarrow>
                 (case accept_while fd cb (wk_closed_after w) rest of
                    (r, t') \<Rightarrow> (r, t @ t'))))"

text \<open>The coroutine: the proactor check, the loop, and the \<^verbatim>\<open>finally\<close> clause.\<close>

definition AFUnixServerWin_accept_loop ::
  "bool \<Rightarrow> AFUnixServerWin \<Rightarrow> (socket_t \<Rightarrow> cb_result) \<Rightarrow> wakeup list \<Rightarrow> outcome \<times> action list" where
  "AFUnixServerWin_accept_loop has_proactor srv cb ws =
     (if \<not> has_proactor then
        (Raised (RuntimeError ''This event loop does not expose a proactor. Use ProactorEventLoop on Windows.''), [])
      else
        case accept_while (srv_sock srv) cb (srv_closed srv) ws of
          (Suspended, t) \<Rightarrow> (Suspended, t)
        | (r, t) \<Rightarrow> (r, t @ [ResetEvent]))"

subsection \<open>\<^verbatim>\<open>open_unix_connection_win\<close>\<close>

record connect_env =
  c_AF_UNIX :: "int option"
  c_fileno :: socket_t
  c_create_event :: nat
  c_event_select :: int
  c_event_select_error :: int
  c_connect :: int
  c_connect_error :: int
  c_has_proactor :: bool
  c_wait_raises :: bool
  c_enum :: int
  c_enum_error :: int
  c_lNetworkEvents :: int
  c_iErrorCode :: "nat \<Rightarrow> int"

text \<open>The \<^verbatim>\<open>try\<close> block.\<close>

definition connect_try :: "connect_env \<Rightarrow> pystr \<Rightarrow> (error + AFUnixStream) \<times> action list" where
  "connect_try env path =
     (let fd = c_fileno env;
          t0 = [EventSelect fd (FD_CONNECT OR FD_CLOSE)]
      in case check_zero (c_event_select env) (c_event_select_error env) of
           Some e \<Rightarrow> (Inl e, t0)
         | None \<Rightarrow>
             (case encode_afunix (AF_UNIX_or_1 (c_AF_UNIX env)) path of
                Inl e \<Rightarrow> (Inl e, if e = path_too_long then t0 @ [CloseSock fd] else t0)
              | Inr addr \<Rightarrow>
                  let t1 = t0 @ [Connect fd addr] in
                  if c_connect env \<noteq> 0 \<and> c_connect_error env \<noteq> WSAEWOULDBLOCK then
                    (Inl (OSError (c_connect_error env)), t1 @ [CloseSock fd])
                  else if \<not> c_has_proactor env then
                    (Inl (RuntimeError ''This event loop does not expose a proactor.''),
                     t1 @ [CloseSock fd])
                  else if c_wait_raises env then (Inl Exception, t1 @ [WaitForHandle])
                  else
                    let t2 = t1 @ [WaitForHandle, EnumNetworkEvents fd] in
                    case check_zero (c_enum env) (c_enum_error env) of
                      Some e \<Rightarrow> (Inl e, t2)
                    | None \<Rightarrow>
                        if c_lNetworkEvents env AND FD_CONNECT \<noteq> 0
                           \<and> c_iErrorCode env FD_CONNECT_BIT \<noteq> 0 then
                          (Inl (OSError (c_iErrorCode env FD_CONNECT_BIT)),
                           t2 @ [CloseSock fd])
                        else (Inr (AFUnixStream_init fd), t2)))"

definition open_unix_connection_win ::
  "connect_env \<Rightarrow> pystr \<Rightarrow> (error + AFUnixStream) \<times> action list" where
  "open_unix_connection_win env path =
     (let fd = c_fileno env;
          t0 = [NewSocket fd, SetBlocking fd, CreateEvent]
      in if c_create_event env = 0 then (Inl (OSErrorMsg []), t0 @ [CloseSock fd])
         else
           case connect_try env path of
             (r, t) \<Rightarrow> (r, t0 @ t @ [CloseEvent]))"

section \<open>\<^verbatim>\<open>win_unix_asyncio.py\<close>\<close>

definition ensure_wsa_started :: "bool \<Rightarrow> int \<Rightarrow> error option \<times> bool \<times> action list" where
  "ensure_wsa_started started ret =
     (if started then (None, True, [])
      else if ret \<noteq> 0 then (Some (OSErrorMsg [ret]), False, [WSAStartup])
      else (None, True, [WSAStartup]))"

subsection \<open>\<^verbatim>\<open>WindowsUnixServer\<close>\<close>

record WindowsUnixServer =
  w_path :: pystr
  w_sock :: "socket_t option"
  w_running :: bool
  w_task :: "nat option"



subsection \<open>\<^verbatim>\<open>WindowsUnixServer._accept_loop\<close>\<close>

text \<open>
  One pass through the \<^verbatim>\<open>while self._running\<close> body: the handle of the new event
  (zero when none could be made), whether the wait raised, what \<^verbatim>\<open>ws2_32.accept\<close>
  (a \<^verbatim>\<open>c_int\<close>) returned, whether wrapping the handle and handing the socket to the
  loop raised, what the handler did, and the flag \<^verbatim>\<open>self._running\<close> afterwards.
\<close>

record win_wakeup =
  ww_create_event :: nat
  ww_wait_raises :: bool
  ww_accept :: int
  ww_wrap_raises :: bool
  ww_handoff_raises :: bool
  ww_cb :: cb_result
  ww_running_after :: bool

definition win_accept_iteration :: "socket_t \<Rightarrow> win_wakeup \<Rightarrow> step \<times> action list" where
  "win_accept_iteration serv w =
     (if ww_create_event w = 0 then (Continue, [CreateEvent, Sleep])
      else
        let t0 = [CreateEvent, EventSelect serv FD_ACCEPT, WaitForHandle] in
        if ww_wait_raises w then (Break, t0 @ [ResetEvent])
        else
          let t1 = t0 @ [ResetEvent, Accept serv] in
          if ww_accept w = - 1 \<or> ww_accept w = 0 then (Continue, t1 @ [Sleep])
          else
            let client = word_of_int (ww_accept w) in
            if ww_wrap_raises w then (Continue, t1 @ [WrapSocket client, CloseHandle client])
            else
              let t2 = t1 @ [WrapSocket client, SetBlocking client,
                             ConnectAcceptedSocket client]
              in if ww_handoff_raises w then (Continue, t2 @ [CloseSock client])
                 else
                   case ww_cb w of
                     Raises \<Rightarrow> (Raise Exception, t2 @ [CallHandler client])
                   | ReturnsValue \<Rightarrow> (Raise TypeError, t2 @ [CallHandler client])
                   | ReturnsCoroutine \<Rightarrow>
                       (Continue, t2 @ [CallHandler client, CreateTask client]))"

text \<open>
  The \<^verbatim>\<open>while\<close> loop over the passes that run to their end.  When there are no
  more, the task stays suspended in its next pass: in \<^verbatim>\<open>wait_for_handle\<close> on the
  event it has just made and registered (of handle \<open>pending\<close>), or in the
  \<^verbatim>\<open>sleep\<close> when no event could be made (\<open>pending\<close> is zero).
\<close>

fun win_accept_while ::
  "socket_t \<Rightarrow> nat \<Rightarrow> bool \<Rightarrow> win_wakeup list \<Rightarrow> outcome \<times> action list" where
  "win_accept_while serv pending running ws =
     (if \<not> running then (Returned, [])
      else
        case ws of
          [] \<Rightarrow>
            if pending = 0 then (Suspended, [CreateEvent, Sleep])
            else (Suspended, [CreateEvent, EventSelect serv FD_ACCEPT, WaitForHandle])
        | w # rest \<Rightarrow>
            (case win_accept_iteration serv w of
               (Break, t) \<Rightarrow> (Returned, t)
             | (Raise e, t) \<Rightarrow> (Raised e, t)
             | (Continue, t) \<Rightarrow>
                 (case win_accept_while serv pending (ww_running_after w) rest of
                    (r, t') \<Rightarrow> (r, t @ t'))))"

definition WindowsUnixServer_accept_loop ::
  "WindowsUnixServer \<Rightarrow> nat \<Rightarrow> win_wakeup list \<Rightarrow> outcome \<times> action list" where
  "WindowsUnixServer_accept_loop srv pending ws =
     (case w_sock srv of
        None \<Rightarrow> (Raised AssertionError, [])
      | Some serv \<Rightarrow> win_accept_while serv pending (w_running srv) ws)"

subsection \<open>\<^verbatim>\<open>open_unix_connection\<close>\<close>

text \<open>
  The reader and writer pair is named by the socket it wraps.  The first attempt
  goes through Python's own socket, and any exception in it leads to the second.
  \<open>o_socket\<close> is what \<^verbatim>\<open>ws2_32.socket\<close> gives through its \<^verbatim>\<open>c_void_p\<close> result type:
  \<^verbatim>\<open>None\<close> for a null handle, an unsigned number otherwise.
\<close>

datatype streams = StreamPair socket_t

datatype native_outcome =
  NativeSocketFails | NativeConnectFails | NativeHandoffFails | NativeSucceeds

record open_env =
  o_wsa_started :: bool
  o_WSAStartup :: int
  o_AF_UNIX :: "int option"
  o_native :: native_outcome
  o_fileno :: socket_t
  o_socket :: "nat option"
  o_socket_error :: int
  o_connect :: int
  o_connect_error :: int
  o_wrap_raises :: bool
  o_handoff_raises :: bool

definition native_attempt :: "open_env \<Rightarrow> pystr \<Rightarrow> streams option \<times> action list" where
  "native_attempt env path =
     (let sock = o_fileno env in
      case o_native env of
        NativeSocketFails \<Rightarrow> (None, [])
      | NativeConnectFails \<Rightarrow> (None, [NewSocket sock, PyConnect sock path, CloseSock sock])
      | NativeHandoffFails \<Rightarrow>
          (None, [NewSocket sock, PyConnect sock path, SetBlocking sock,
                  ConnectAcceptedSocket sock, CloseSock sock])
      | NativeSucceeds \<Rightarrow>
          (Some (StreamPair sock),
           [NewSocket sock, PyConnect sock path, SetBlocking sock,
            ConnectAcceptedSocket sock]))"

definition winsock_connect :: "open_env \<Rightarrow> pystr \<Rightarrow> (error + streams) \<times> action list" where
  "winsock_connect env path =
     (let fam = AF_UNIX_or_1 (o_AF_UNIX env); t0 = [WsSocket] in
      case o_socket env of
        None \<Rightarrow> (Inl TypeError, t0)
      | Some h \<Rightarrow>
          if h = 0 \<or> int h = - 1 then (Inl (OSErrorMsg [o_socket_error env]), t0)
          else
            let s_handle = word_of_nat h in
            case encode_open fam path of
              Inl e \<Rightarrow>
                (Inl e, if e = socket_path_too_long then t0 @ [CloseSocket s_handle] else t0)
            | Inr sockaddr \<Rightarrow>
                let t1 = t0 @ [Connect s_handle sockaddr] in
                if o_connect env \<noteq> 0 then
                  (Inl (OSErrorMsg [o_connect env, o_connect_error env]),
                   t1 @ [CloseSocket s_handle])
                else if o_wrap_raises env then
                  (Inl Exception, t1 @ [WrapSocket s_handle, CloseSocket s_handle])
                else
                  let t2 = t1 @ [WrapSocket s_handle, SetBlocking s_handle,
                                 ConnectAcceptedSocket s_handle]
                  in if o_handoff_raises env then (Inl Exception, t2)
                     else (Inr (StreamPair s_handle), t2))"

definition open_unix_connection :: "open_env \<Rightarrow> pystr \<Rightarrow> (error + streams) \<times> action list" where
  "open_unix_connection env path =
     (case ensure_wsa_started (o_wsa_started env) (o_WSAStartup env) of
        (Some e, started, t) \<Rightarrow> (Inl e, t)
      | (None, started, t) \<Rightarrow>
          if o_AF_UNIX env \<noteq> None then
            (case native_attempt env path of
               (Some rw, t1) \<Rightarrow> (Inr rw, t @ t1)
             | (None, t1) \<Rightarrow>
                 (case winsock_connect env path of (r, t2) \<Rightarrow> (r, t @ t1 @ t2)))
          else
            (case winsock_connect env path of (r, t2) \<Rightarrow> (r, t @ t2)))"

section \<open>The drain of claim C3, in the specification's words\<close>

text \<open>
  Written from the specification, to be compared with \<open>accept_all\<close>: for one accepted
  handle the loop wraps it into a stream and calls the handler on it, making a task
  of a coroutine the handler returns; the drain does this for every handle that
  \<^verbatim>\<open>accept\<close> returns before it reports that none is queued, and ends with that
  last call of \<^verbatim>\<open>accept\<close>.
\<close>

definition dispatch_spec :: "socket_t \<Rightarrow> (socket_t \<Rightarrow> cb_result) \<Rightarrow> socket_t \<Rightarrow> action list" where
  "dispatch_spec fd cb c =
     [Accept fd, WrapSocket c, SetBlocking c, CallHandler c]
     @ (if cb c = ReturnsCoroutine then [CreateTask c] else [])"

definition drain_spec :: "socket_t \<Rightarrow> (socket_t \<Rightarrow> cb_result) \<Rightarrow> socket_t list \<Rightarrow> action list" where
  "drain_spec fd cb accepts =
     concat (map (dispatch_spec fd cb) (takeWhile (\<lambda>c. c \<noteq> INVALID_SOCKET) accepts))
     @ [Accept fd]"

section \<open>Concrete inputs\<close>

text \<open>A server as the constructor leaves it, listening on the path \<^verbatim>\<open>a\<close>.\<close>

definition srv0 :: AFUnixServerWin where
  "srv0 = \<lparr>srv_path = [97], srv_backlog = 100, srv_unlink_existing = True, srv_sock = 3,
           srv_task = None, srv_closed = False, srv_accept_event = Some 9\<rparr>"

text \<open>
  A connect whose every call succeeds: \<^verbatim>\<open>ws2_32.connect\<close> reports that it would
  block, and the event then reports the connection made.  The variants: a connect
  that completes at once, a \<^verbatim>\<open>WSAEventSelect\<close> that fails, and a
  \<^verbatim>\<open>WSAEnumNetworkEvents\<close> that fails (both with \<^verbatim>\<open>WSAENETDOWN\<close>).  \<open>oenv0\<close> is a
  connect of \<^verbatim>\<open>open_unix_connection\<close> where \<^verbatim>\<open>socket\<close> has no \<^verbatim>\<open>AF_UNIX\<close> and
  \<^verbatim>\<open>ws2_32.connect\<close> reports that it would block.  \<open>addr_a\<close> is the address of the
  path \<^verbatim>\<open>a\<close>.
\<close>

definition cenv0 :: connect_env where
  "cenv0 = \<lparr>c_AF_UNIX = Some 1, c_fileno = 5, c_create_event = 9,
            c_event_select = 0, c_event_select_error = 0,
            c_connect = - 1, c_connect_error = 10035,
            c_has_proactor = True, c_wait_raises = False,
            c_enum = 0, c_enum_error = 0,
            c_lNetworkEvents = 0x10, c_iErrorCode = (\<lambda>i. 0)\<rparr>"

definition oenv0 :: open_env where
  "oenv0 = \<lparr>o_wsa_started = True, o_WSAStartup = 0, o_AF_UNIX = None,
            o_native = NativeSocketFails, o_fileno = 4, o_socket = Some 5,
            o_socket_error = 0, o_connect = - 1, o_connect_error = 10035,
            o_wrap_raises = False, o_handoff_raises = False\<rparr>"

definition addr_a :: sockaddr_un where
  "addr_a = \<lparr>sun_family = 1, sun_path = 97 # replicate 107 0\<rparr>"

definition cenv_immediate :: connect_env where
  "cenv_immediate = cenv0\<lparr>c_connect := 0, c_connect_error := 0\<rparr>"

definition cenv_select_fails :: connect_env where
  "cenv_select_fails = cenv0\<lparr>c_event_select := - 1, c_event_select_error := 10050\<rparr>"

definition cenv_enum_fails :: connect_env where
  "cenv_enum_fails = cenv0\<lparr>c_enum := - 1, c_enum_error := 10050\<rparr>"

text \<open>
  Wake-ups of the two servers: one with both \<^verbatim>\<open>FD_ACCEPT\<close> and \<^verbatim>\<open>FD_CLOSE\<close> set
  and a connection queued, one with \<^verbatim>\<open>FD_ACCEPT\<close> alone and two connections queued;
  and a pass of \<^verbatim>\<open>WindowsUnixServer._accept_loop\<close> in which \<^verbatim>\<open>accept\<close> returns
  the handle \<open>c\<close>.
\<close>

definition wk_accept_close :: wakeup where
  "wk_accept_close = \<lparr>wk_wait_raises = False, wk_enum = 0, wk_enum_error = 0,
                      wk_lNetworkEvents = 0x28, wk_accepts = [7],
                      wk_closed_after = False\<rparr>"

definition wk_accept2 :: wakeup where
  "wk_accept2 = \<lparr>wk_wait_raises = False, wk_enum = 0, wk_enum_error = 0,
                 wk_lNetworkEvents = 0x08, wk_accepts = [7, 8],
                 wk_closed_after = False\<rparr>"

definition ww_accept :: "int \<Rightarrow> win_wakeup" where
  "ww_accept c = \<lparr>ww_create_event = 9, ww_wait_raises = False, ww_accept = c,
                  ww_wrap_raises = False, ww_handoff_raises = False,
                  ww_cb = ReturnsCoroutine, ww_running_after = True\<rparr>"




section \<open>Address encoding\<close>

lemma utf8_encode_ascii:
  "c < 0x80 \<Longrightarrow> utf8_encode (replicate n c) = Inr (replicate n (of_nat c))"
  by (induction n) (simp_all add: utf8_char_def)

lemma takeWhile_replicate_zero [simp]:
  "takeWhile (\<lambda>b. b \<noteq> 0) (replicate n (0::byte)) = []"
  by (cases n) simp_all

lemma foldl_insert_zero:
  "foldl insert_zero (replicate k 0) [k..<k + n] = replicate (k + n) 0"
proof (induction n arbitrary: k)
  case 0
  then show ?case by simp
next
  case (Suc n)
  have "[k..<k + Suc n] = k # [Suc k..<Suc k + n]"
    by (simp add: upt_rec)
  moreover have "insert_zero (replicate k 0) k = replicate (Suc k) 0"
    by (simp add: insert_zero_def replicate_append_same)
  ultimately show ?case
    using Suc.IH [of "Suc k"] by simp
qed

lemma cleared_tmp: "foldl insert_zero [] [0..<UNIX_PATH_MAX] = replicate 108 0"
  using foldl_insert_zero [of 0 108] by (simp add: UNIX_PATH_MAX_def)

lemma zero_tail: "n < 108 \<Longrightarrow> [0::byte] @ drop (n + 1) (replicate 108 0) = replicate (108 - n) 0"
proof -
  assume "n < 108"
  then have "108 - n = Suc (108 - (n + 1))" by simp
  then show ?thesis by (simp del: replicate_Suc add: replicate_Suc [symmetric])
qed

lemma store_path_fresh:
  assumes "length enc < 108"
  shows "store_path (Sockaddr\<lparr>sun_family := f\<rparr>) enc =
         Inr \<lparr>sun_family = f,
              sun_path = takeWhile (\<lambda>b. b \<noteq> 0) enc
                         @ replicate (108 - length (takeWhile (\<lambda>b. b \<noteq> 0) enc)) 0\<rparr>"
proof -
  let ?n = "length (takeWhile (\<lambda>b. b \<noteq> 0) enc)"
  have n: "?n < 108" using assms length_takeWhile_le [of "\<lambda>b. b \<noteq> 0" enc] by simp
  have t: "take ?n enc = takeWhile (\<lambda>b. b \<noteq> 0) enc"
    by (rule takeWhile_eq_take [symmetric])
  show ?thesis
    using n zero_tail [OF n]
    by (simp add: store_path_def char_array_get_def slice_assign_def char_array_set_def
        Sockaddr_def Let_def t)
qed

lemma strlen_padded:
  "length (takeWhile (\<lambda>b. b \<noteq> 0) (enc @ replicate k (0::byte))) = length (takeWhile (\<lambda>b. b \<noteq> 0) enc)"
  by (induction enc) simp_all

lemma take_strlen_padded:
  "take (length (takeWhile (\<lambda>b. b \<noteq> 0) enc)) (enc @ replicate k (0::byte)) = takeWhile (\<lambda>b. b \<noteq> 0) enc"
  by (induction enc) simp_all

lemma store_path_cleared_fresh:
  assumes "length enc < 108"
  shows "store_path_cleared (Sockaddr\<lparr>sun_family := f\<rparr>) enc =
         Inr \<lparr>sun_family = f,
              sun_path = takeWhile (\<lambda>b. b \<noteq> 0) enc
                         @ replicate (108 - length (takeWhile (\<lambda>b. b \<noteq> 0) enc)) 0\<rparr>"
proof -
  let ?n = "length (takeWhile (\<lambda>b. b \<noteq> 0) enc)"
  have n: "?n < 108" using assms length_takeWhile_le [of "\<lambda>b. b \<noteq> 0" enc] by simp
  show ?thesis
    using n zero_tail [OF n]
    by (simp add: store_path_cleared_def char_array_get_def slice_assign_def char_array_set_def
        Sockaddr_def Let_def cleared_tmp strlen_padded take_strlen_padded del: take_append)
qed

lemma encode_afunix_eq:
  "utf8_encode path = Inr enc \<Longrightarrow>
   encode_afunix fam path =
     (if length enc < 108
      then Inr \<lparr>sun_family = c_ushort fam,
                sun_path = takeWhile (\<lambda>b. b \<noteq> 0) enc
                           @ replicate (108 - length (takeWhile (\<lambda>b. b \<noteq> 0) enc)) 0\<rparr>
      else Inl path_too_long)"
  by (simp add: encode_afunix_def SUN_PATH_MAX_def store_path_fresh)

lemma encode_start_eq:
  "utf8_encode path = Inr enc \<Longrightarrow>
   encode_start fam path =
     (if length enc < 108
      then Inr \<lparr>sun_family = c_ushort fam,
                sun_path = takeWhile (\<lambda>b. b \<noteq> 0) enc
                           @ replicate (108 - length (takeWhile (\<lambda>b. b \<noteq> 0) enc)) 0\<rparr>
      else Inl socket_path_too_long)"
  by (simp add: encode_start_def UNIX_PATH_MAX_def store_path_fresh)

lemma encode_open_eq:
  "utf8_encode path = Inr enc \<Longrightarrow>
   encode_open fam path =
     (if length enc < 108
      then Inr \<lparr>sun_family = c_ushort fam,
                sun_path = takeWhile (\<lambda>b. b \<noteq> 0) enc
                           @ replicate (108 - length (takeWhile (\<lambda>b. b \<noteq> 0) enc)) 0\<rparr>
      else Inl socket_path_too_long)"
  by (simp add: encode_open_def UNIX_PATH_MAX_def store_path_cleared_fresh)

lemma takeWhile_replicate_nz [simp]:
  "c \<noteq> 0 \<Longrightarrow> takeWhile (\<lambda>b. b \<noteq> 0) (replicate n (c::byte)) = replicate n c"
  by (induction n) simp_all

text \<open>
  Claim C1, as the code has it: a path encodes when its UTF-8 length is below the
  capacity of 108 bytes (so 107 bytes fit), and is refused with the path-too-long
  \<^verbatim>\<open>ValueError\<close> from 108 bytes on; nothing is truncated.  This holds for the address
  built in \<^verbatim>\<open>AFUnixServerWin.__init__\<close> and \<^verbatim>\<open>open_unix_connection_win\<close>, in
  \<^verbatim>\<open>WindowsUnixServer.start\<close> and in \<^verbatim>\<open>open_unix_connection\<close>.
\<close>

theorem encode_threshold:
  "utf8_encode path = Inr enc \<Longrightarrow>
     (if length enc < SUN_PATH_MAX
      then (\<exists>a. encode_afunix fam path = Inr a) \<and> (\<exists>a. encode_start fam path = Inr a)
           \<and> (\<exists>a. encode_open fam path = Inr a)
      else encode_afunix fam path = Inl path_too_long
           \<and> encode_start fam path = Inl socket_path_too_long
           \<and> encode_open fam path = Inl socket_path_too_long)"
  by (simp add: encode_afunix_eq encode_start_eq encode_open_eq SUN_PATH_MAX_def)

theorem encode_threshold_witness:
  "utf8_encode (replicate 107 97) = Inr (replicate 107 97)
   \<and> (\<exists>a. encode_afunix 1 (replicate 107 97) = Inr a)
   \<and> (\<exists>a. encode_start 1 (replicate 107 97) = Inr a)
   \<and> (\<exists>a. encode_open 1 (replicate 107 97) = Inr a)
   \<and> utf8_encode (replicate 108 97) = Inr (replicate 108 97)
   \<and> encode_afunix 1 (replicate 108 97) = Inl path_too_long
   \<and> encode_start 1 (replicate 108 97) = Inl socket_path_too_long
   \<and> encode_open 1 (replicate 108 97) = Inl socket_path_too_long"
proof -
  have u: "utf8_encode (replicate 107 97) = Inr (replicate 107 97)"
    using utf8_encode_ascii [of 97 107] by simp
  have v: "utf8_encode (replicate 108 97) = Inr (replicate 108 97)"
    using utf8_encode_ascii [of 97 108] by simp
  show ?thesis
    using u v encode_threshold [OF u, of 1] encode_threshold [OF v, of 1]
    by (simp add: SUN_PATH_MAX_def)
qed

text \<open>
  Claim C1 as the specification words it puts the limit at capacity minus one: a
  path of 107 bytes would be refused.  The code encodes it.
\<close>

theorem encode_threshold_counterexample:
  "utf8_encode (replicate 107 97) = Inr (replicate 107 97)
   \<and> length (replicate 107 (97::byte)) \<ge> SUN_PATH_MAX - 1
   \<and> encode_afunix 1 (replicate 107 97)
       = Inr \<lparr>sun_family = 1, sun_path = replicate 107 97 @ [0]\<rparr>
   \<and> encode_start 1 (replicate 107 97)
       = Inr \<lparr>sun_family = 1, sun_path = replicate 107 97 @ [0]\<rparr>
   \<and> encode_open 1 (replicate 107 97)
       = Inr \<lparr>sun_family = 1, sun_path = replicate 107 97 @ [0]\<rparr>"
proof -
  have u: "utf8_encode (replicate 107 97) = Inr (replicate 107 97)"
    using utf8_encode_ascii [of 97 107] by simp
  show ?thesis
    using u encode_afunix_eq [OF u, of 1] encode_start_eq [OF u, of 1] encode_open_eq [OF u, of 1]
    by (simp add: SUN_PATH_MAX_def c_ushort_def)
qed

text \<open>
  Claim C7: after a successful encoding the buffer has its 108 bytes, every byte
  from the encoded length on is zero (the buffer is the path bytes followed by zeros
  only), and the family field is the address family, as a \<^verbatim>\<open>c_ushort\<close>.
\<close>

theorem encode_zero_fill:
  "utf8_encode path = Inr enc \<Longrightarrow>
   encode_afunix fam path = Inr a \<or> encode_start fam path = Inr a
     \<or> encode_open fam path = Inr a \<Longrightarrow>
     length (sun_path a) = 108
     \<and> drop (length enc) (sun_path a) = replicate (108 - length enc) 0
     \<and> sun_path a = takeWhile (\<lambda>b. b \<noteq> 0) enc
                    @ replicate (108 - length (takeWhile (\<lambda>b. b \<noteq> 0) enc)) 0
     \<and> sun_family a = c_ushort fam"
proof -
  assume u: "utf8_encode path = Inr enc"
  assume d: "encode_afunix fam path = Inr a \<or> encode_start fam path = Inr a
     \<or> encode_open fam path = Inr a"
  let ?n = "length (takeWhile (\<lambda>b. b \<noteq> 0) enc)"
  have le: "?n \<le> length enc" by (rule length_takeWhile_le)
  from d u have l: "length enc < 108"
    and a: "a = \<lparr>sun_family = c_ushort fam,
                sun_path = takeWhile (\<lambda>b. b \<noteq> 0) enc @ replicate (108 - ?n) 0\<rparr>"
    by (auto simp: encode_afunix_eq encode_start_eq encode_open_eq split: if_splits)
  from le l have "drop (length enc) (takeWhile (\<lambda>b. b \<noteq> 0) enc @ replicate (108 - ?n) 0)
      = replicate (108 - length enc) 0"
    by simp
  with a le l show ?thesis by simp
qed

theorem encode_zero_fill_witness:
  "utf8_encode [97, 98] = Inr [97, 98]
   \<and> encode_afunix 1 [97, 98] = Inr \<lparr>sun_family = 1, sun_path = [97, 98] @ replicate 106 0\<rparr>
   \<and> length ([97, 98] @ replicate 106 (0::byte)) = 108
   \<and> drop 2 ([97, 98] @ replicate 106 (0::byte)) = replicate 106 0"
proof -
  have u: "utf8_encode [97, 98] = Inr [97, 98]"
    by (simp add: utf8_char_def)
  have e: "encode_afunix 1 [97, 98] = Inr \<lparr>sun_family = 1, sun_path = [97, 98] @ replicate 106 0\<rparr>"
    using encode_afunix_eq [OF u, of 1] by (simp add: c_ushort_def)
  from encode_zero_fill [OF u disjI1 [OF e]] u e show ?thesis by simp
qed

section \<open>The stream\<close>

text \<open>
  Claim C9: \<^verbatim>\<open>recv\<close> on a closed stream returns the empty byte string at once; the
  socket is not touched (the trace is empty) and nothing is raised.
\<close>

theorem recv_on_closed:
  "stream_closed s \<Longrightarrow> AFUnixStream_recv sock_recv s n = (Inr [], [])"
  by (simp add: AFUnixStream_recv_def)

theorem recv_on_closed_witness:
  "stream_closed \<lparr>stream_sock = 7, stream_closed = True\<rparr>
   \<and> AFUnixStream_recv (\<lambda>n. Inl (OSError 10054)) \<lparr>stream_sock = 7, stream_closed = True\<rparr> 4096
     = (Inr [], [])"
  using recv_on_closed [of "\<lparr>stream_sock = 7, stream_closed = True\<rparr>" "\<lambda>n. Inl (OSError 10054)" 4096]
  by simp

text \<open>
  Claim C6: once a \<^verbatim>\<open>close\<close> has returned, the stream is closed, and every later
  \<^verbatim>\<open>close\<close> raises nothing, makes no call and leaves the stream as it is, whatever
  the socket would answer.
\<close>

theorem close_idempotent:
  "AFUnixStream_close sh ce s = (None, s1, t) \<Longrightarrow>
     stream_closed s1 \<and> AFUnixStream_close sh' ce' s1 = (None, s1, [])"
  by (auto simp: AFUnixStream_close_def split: if_splits option.splits)

theorem close_idempotent_witness:
  "AFUnixStream_close True None (AFUnixStream_init 7)
     = (None, \<lparr>stream_sock = 7, stream_closed = True\<rparr>, [Shutdown 7, CloseSock 7])
   \<and> stream_closed \<lparr>stream_sock = 7, stream_closed = True\<rparr>
   \<and> AFUnixStream_close True (Some 10038) \<lparr>stream_sock = 7, stream_closed = True\<rparr>
     = (None, \<lparr>stream_sock = 7, stream_closed = True\<rparr>, [])"
proof -
  have h: "AFUnixStream_close True None (AFUnixStream_init 7)
     = (None, \<lparr>stream_sock = 7, stream_closed = True\<rparr>, [Shutdown 7, CloseSock 7])"
    by (simp add: AFUnixStream_close_def AFUnixStream_init_def)
  show ?thesis using h close_idempotent [OF h, of True "Some 10038"] by simp
qed

section \<open>Starting the server\<close>

lemma start_when_started:
  "srv_task srv \<noteq> None \<Longrightarrow>
     AFUnixServerWin_start srv tasks = (Inl (RuntimeError ''Server already started''), tasks)"
  by (simp add: AFUnixServerWin_start_def)

lemma close_keeps_task: "srv_task (fst (AFUnixServerWin_close u srv fs)) = srv_task srv"
  by (simp add: AFUnixServerWin_close_def Let_def)

lemma run_calls_started:
  "srv_task srv \<noteq> None \<Longrightarrow>
     srv_task (fst (run_calls calls (srv, fs, tasks))) \<noteq> None
     \<and> snd (snd (run_calls calls (srv, fs, tasks))) = tasks"
proof (induction calls arbitrary: srv fs tasks)
  case Nil
  then show ?case by simp
next
  case (Cons c calls)
  show ?case
  proof (cases c)
    case Start
    with Cons show ?thesis by (simp add: start_when_started)
  next
    case (Close u)
    obtain srv' fs' t where c: "AFUnixServerWin_close u srv fs = (srv', fs', t)"
      by (cases "AFUnixServerWin_close u srv fs") auto
    then have "srv_task srv' \<noteq> None"
      using close_keeps_task [of u srv fs] Cons.prems by simp
    with Cons.IH [of srv' fs' tasks] Close c show ?thesis by simp
  qed
qed

text \<open>
  Claim C10: after \<^verbatim>\<open>start\<close> has succeeded on an \<^verbatim>\<open>AFUnixServerWin\<close> (which
  creates exactly one accept-loop task), whatever \<^verbatim>\<open>start\<close> and \<^verbatim>\<open>close\<close> calls
  follow create no further task, and \<^verbatim>\<open>start\<close> raises \<^verbatim>\<open>RuntimeError\<close>.
\<close>

theorem start_at_most_once:
  "AFUnixServerWin_start srv tasks = (Inr srv1, tasks1) \<Longrightarrow>
     tasks1 = tasks @ [length tasks]
     \<and> snd (snd (run_calls calls (srv1, fs, tasks1))) = tasks1
     \<and> AFUnixServerWin_start (fst (run_calls calls (srv1, fs, tasks1))) tasks1
         = (Inl (RuntimeError ''Server already started''), tasks1)"
proof -
  assume a: "AFUnixServerWin_start srv tasks = (Inr srv1, tasks1)"
  then have t: "srv_task srv1 \<noteq> None" and l: "tasks1 = tasks @ [length tasks]"
    by (auto simp: AFUnixServerWin_start_def split: if_splits)
  from run_calls_started [OF t, of calls fs tasks1] l show ?thesis
    by (simp add: start_when_started)
qed

theorem start_at_most_once_witness:
  "AFUnixServerWin_start srv0 [] = (Inr (srv0\<lparr>srv_task := Some 0\<rparr>), [0])
   \<and> snd (snd (run_calls [Start, Close False, Start] (srv0\<lparr>srv_task := Some 0\<rparr>, {[97]}, [0]))) = [0]
   \<and> AFUnixServerWin_start (fst (run_calls [Start, Close False, Start] (srv0\<lparr>srv_task := Some 0\<rparr>, {[97]}, [0]))) [0]
       = (Inl (RuntimeError ''Server already started''), [0])"
proof -
  have h: "AFUnixServerWin_start srv0 [] = (Inr (srv0\<lparr>srv_task := Some 0\<rparr>), [0])"
    by (simp add: AFUnixServerWin_start_def srv0_def)
  from h start_at_most_once [OF h, of "[Start, Close False, Start]" "{[97]}"]
  show ?thesis by blast
qed

section \<open>The client connect\<close>

lemma utf8_a: "utf8_encode [97] = Inr [97]"
  by (simp add: utf8_char_def)

lemma encode_afunix_a: "encode_afunix 1 [97] = Inr addr_a"
  using encode_afunix_eq [OF utf8_a, of 1] by (simp add: c_ushort_def addr_a_def)

lemma encode_open_a: "encode_open 1 [97] = Inr addr_a"
  using encode_open_eq [OF utf8_a, of 1] by (simp add: c_ushort_def addr_a_def)


lemma masks [simp]: "FD_CONNECT OR FD_CLOSE = 48" "FD_ACCEPT OR FD_CLOSE = 40"
  by (simp_all add: FD_CONNECT_def FD_CLOSE_def FD_ACCEPT_def)

lemmas connect_defs =
  open_unix_connection_win_def connect_try_def check_zero_def AF_UNIX_or_1_def
  AFUnixStream_init_def WSAEWOULDBLOCK_def FD_CONNECT_def FD_CLOSE_def FD_CONNECT_BIT_def

text \<open>
  Claim C2, as the code has it.  In \<^verbatim>\<open>open_unix_connection_win\<close> a non-zero return of
  \<^verbatim>\<open>ws2_32.connect\<close> with \<^verbatim>\<open>WSAEWOULDBLOCK\<close> is no error: when the loop has a
  proactor the coroutine goes on to wait on the event (without one it closes the
  socket and raises \<^verbatim>\<open>RuntimeError\<close>); with any other code it closes the socket and
  raises \<^verbatim>\<open>OSError\<close> with that code.  In \<^verbatim>\<open>open_unix_connection\<close>, which connects a
  blocking socket and has no event, every non-zero return closes the socket and
  raises \<^verbatim>\<open>OSError\<close>, the return value and the code in its message.
\<close>

theorem would_block:
  assumes "c_create_event env \<noteq> 0" and "c_event_select env = 0"
    and "encode_afunix (AF_UNIX_or_1 (c_AF_UNIX env)) path = Inr addr"
    and "c_connect env \<noteq> 0"
    and "o_socket e = Some h" and "h \<noteq> 0"
    and "encode_open (AF_UNIX_or_1 (o_AF_UNIX e)) path' = Inr addr'"
    and "o_connect e \<noteq> 0"
  shows "(if c_connect_error env = WSAEWOULDBLOCK then
            (if c_has_proactor env then
               (\<exists>t. snd (open_unix_connection_win env path)
                  = [NewSocket (c_fileno env), SetBlocking (c_fileno env), CreateEvent,
                     EventSelect (c_fileno env) (FD_CONNECT OR FD_CLOSE),
                     Connect (c_fileno env) addr, WaitForHandle] @ t)
             else
               open_unix_connection_win env path
                 = (Inl (RuntimeError ''This event loop does not expose a proactor.''),
                    [NewSocket (c_fileno env), SetBlocking (c_fileno env), CreateEvent,
                     EventSelect (c_fileno env) (FD_CONNECT OR FD_CLOSE),
                     Connect (c_fileno env) addr, CloseSock (c_fileno env), CloseEvent]))
          else
            open_unix_connection_win env path
              = (Inl (OSError (c_connect_error env)),
                 [NewSocket (c_fileno env), SetBlocking (c_fileno env), CreateEvent,
                  EventSelect (c_fileno env) (FD_CONNECT OR FD_CLOSE),
                  Connect (c_fileno env) addr, CloseSock (c_fileno env), CloseEvent]))
         \<and> winsock_connect e path'
             = (Inl (OSErrorMsg [o_connect e, o_connect_error e]),
                [WsSocket, Connect (word_of_nat h) addr', CloseSocket (word_of_nat h)])"
proof -
  have w: "winsock_connect e path'
             = (Inl (OSErrorMsg [o_connect e, o_connect_error e]),
                [WsSocket, Connect (word_of_nat h) addr', CloseSocket (word_of_nat h)])"
    using assms(5-8) by (simp add: winsock_connect_def Let_def)
  have c: "check_zero (c_event_select env) (c_event_select_error env) = None"
    using assms(2) by (simp add: check_zero_def)
  show ?thesis
    using assms(1,3,4) c w
    by (simp add: open_unix_connection_win_def connect_try_def Let_def check_zero_def
        split: option.splits)
qed

theorem would_block_witness:
  "c_create_event cenv0 \<noteq> 0 \<and> c_event_select cenv0 = 0
   \<and> encode_afunix (AF_UNIX_or_1 (c_AF_UNIX cenv0)) [97] = Inr addr_a
   \<and> c_connect cenv0 \<noteq> 0 \<and> c_connect_error cenv0 = WSAEWOULDBLOCK
   \<and> c_has_proactor cenv0
   \<and> o_socket oenv0 = Some 5
   \<and> encode_open (AF_UNIX_or_1 (o_AF_UNIX oenv0)) [97] = Inr addr_a
   \<and> o_connect oenv0 \<noteq> 0
   \<and> (\<exists>t. snd (open_unix_connection_win cenv0 [97])
          = [NewSocket 5, SetBlocking 5, CreateEvent, EventSelect 5 48,
             Connect 5 addr_a, WaitForHandle] @ t)
   \<and> winsock_connect oenv0 [97]
       = (Inl (OSErrorMsg [- 1, 10035]), [WsSocket, Connect 5 addr_a, CloseSocket 5])"
proof -
  have h1: "c_create_event cenv0 \<noteq> 0" by (simp add: cenv0_def)
  have h2: "c_event_select cenv0 = 0" by (simp add: cenv0_def)
  have h3: "encode_afunix (AF_UNIX_or_1 (c_AF_UNIX cenv0)) [97] = Inr addr_a"
    by (simp add: cenv0_def AF_UNIX_or_1_def encode_afunix_a)
  have h4: "c_connect cenv0 \<noteq> 0" by (simp add: cenv0_def)
  have h5: "o_socket oenv0 = Some 5" by (simp add: oenv0_def)
  have h6: "(5::nat) \<noteq> 0" by simp
  have h7: "encode_open (AF_UNIX_or_1 (o_AF_UNIX oenv0)) [97] = Inr addr_a"
    by (simp add: oenv0_def AF_UNIX_or_1_def encode_open_a)
  have h8: "o_connect oenv0 \<noteq> 0" by (simp add: oenv0_def)
  have k: "c_connect_error cenv0 = WSAEWOULDBLOCK" "c_has_proactor cenv0"
    "c_fileno cenv0 = 5" "o_connect oenv0 = - 1" "o_connect_error oenv0 = 10035"
    by (simp_all add: cenv0_def oenv0_def WSAEWOULDBLOCK_def)
  from would_block [OF h1 h2 h3 h4 h5 h6 h7 h8] h1 h2 h3 h4 h5 h7 h8 k
  show ?thesis by simp
qed

text \<open>
  Claim C2 as the specification words it covers every client connect; in
  \<^verbatim>\<open>open_unix_connection\<close> the would-block code is an error like any other.
\<close>

theorem would_block_counterexample:
  "o_connect oenv0 \<noteq> 0 \<and> o_connect_error oenv0 = WSAEWOULDBLOCK
   \<and> open_unix_connection oenv0 [97]
       = (Inl (OSErrorMsg [- 1, 10035]), [WsSocket, Connect 5 addr_a, CloseSocket 5])"
  by (simp add: open_unix_connection_def ensure_wsa_started_def winsock_connect_def oenv0_def
      AF_UNIX_or_1_def encode_open_a WSAEWOULDBLOCK_def)

text \<open>
  Claim C4 at two failing inputs: when \<^verbatim>\<open>WSAEventSelect\<close> or
  \<^verbatim>\<open>WSAEnumNetworkEvents\<close> fails, \<^verbatim>\<open>open_unix_connection_win\<close> raises with the event
  closed and the socket never closed.
\<close>

theorem connect_leaks_socket:
  "open_unix_connection_win cenv_select_fails [97]
     = (Inl (OSError 10050),
        [NewSocket 5, SetBlocking 5, CreateEvent, EventSelect 5 48, CloseEvent])
   \<and> CloseSock 5 \<notin> set (snd (open_unix_connection_win cenv_select_fails [97]))
   \<and> open_unix_connection_win cenv_enum_fails [97]
     = (Inl (OSError 10050),
        [NewSocket 5, SetBlocking 5, CreateEvent, EventSelect 5 48, Connect 5 addr_a,
         WaitForHandle, EnumNetworkEvents 5, CloseEvent])
   \<and> CloseSock 5 \<notin> set (snd (open_unix_connection_win cenv_enum_fails [97]))"
  by (simp add: connect_defs cenv_select_fails_def cenv_enum_fails_def cenv0_def encode_afunix_a)

text \<open>
  Claim C5, as the code has it.  When the event was made and registered, the path
  encodes, \<^verbatim>\<open>ws2_32.connect\<close> returns zero (or reports that it would block) and the
  loop has a proactor, \<^verbatim>\<open>open_unix_connection_win\<close> waits on the event, exactly once,
  and does from there on what it does for a connect in progress: an exception of the
  wait goes on; otherwise the network events are queried, a failed query raises
  \<^verbatim>\<open>OSError\<close>, a connect error reported by the query closes the socket and raises
  \<^verbatim>\<open>OSError\<close> with that code, and only otherwise the endpoint is returned.
\<close>

theorem connect_always_waits:
  assumes "c_create_event env \<noteq> 0" and "c_event_select env = 0"
    and "encode_afunix (AF_UNIX_or_1 (c_AF_UNIX env)) path = Inr addr"
    and "c_connect env = 0 \<or> c_connect_error env = WSAEWOULDBLOCK"
    and "c_has_proactor env"
  shows "(let fd = c_fileno env;
              p = [NewSocket fd, SetBlocking fd, CreateEvent,
                   EventSelect fd (FD_CONNECT OR FD_CLOSE), Connect fd addr]
          in open_unix_connection_win env path =
               (if c_wait_raises env then (Inl Exception, p @ [WaitForHandle, CloseEvent])
                else if c_enum env \<noteq> 0 then
                  (Inl (OSError (c_enum_error env)),
                   p @ [WaitForHandle, EnumNetworkEvents fd, CloseEvent])
                else if c_lNetworkEvents env AND FD_CONNECT \<noteq> 0
                        \<and> c_iErrorCode env FD_CONNECT_BIT \<noteq> 0 then
                  (Inl (OSError (c_iErrorCode env FD_CONNECT_BIT)),
                   p @ [WaitForHandle, EnumNetworkEvents fd, CloseSock fd, CloseEvent])
                else
                  (Inr (AFUnixStream_init fd),
                   p @ [WaitForHandle, EnumNetworkEvents fd, CloseEvent])))
         \<and> (\<exists>t. snd (open_unix_connection_win env path)
               = [NewSocket (c_fileno env), SetBlocking (c_fileno env), CreateEvent,
                  EventSelect (c_fileno env) (FD_CONNECT OR FD_CLOSE),
                  Connect (c_fileno env) addr, WaitForHandle] @ t)
         \<and> length (filter (\<lambda>a. a = WaitForHandle) (snd (open_unix_connection_win env path))) = 1
         \<and> open_unix_connection_win env path
             = open_unix_connection_win
                 (env\<lparr>c_connect := - 1, c_connect_error := WSAEWOULDBLOCK\<rparr>) path"
  using assms
  by (auto simp: open_unix_connection_win_def connect_try_def Let_def check_zero_def
      split: option.splits)

theorem connect_always_waits_witness:
  "c_create_event cenv_immediate \<noteq> 0 \<and> c_event_select cenv_immediate = 0
   \<and> encode_afunix (AF_UNIX_or_1 (c_AF_UNIX cenv_immediate)) [97] = Inr addr_a
   \<and> c_connect cenv_immediate = 0 \<and> c_has_proactor cenv_immediate
   \<and> open_unix_connection_win cenv_immediate [97]
       = (Inr \<lparr>stream_sock = 5, stream_closed = False\<rparr>,
          [NewSocket 5, SetBlocking 5, CreateEvent, EventSelect 5 48, Connect 5 addr_a,
           WaitForHandle, EnumNetworkEvents 5, CloseEvent])
   \<and> length (filter (\<lambda>a. a = WaitForHandle)
               (snd (open_unix_connection_win cenv_immediate [97]))) = 1"
proof -
  have h1: "c_create_event cenv_immediate \<noteq> 0" by (simp add: cenv_immediate_def cenv0_def)
  have h2: "c_event_select cenv_immediate = 0" by (simp add: cenv_immediate_def cenv0_def)
  have h3: "encode_afunix (AF_UNIX_or_1 (c_AF_UNIX cenv_immediate)) [97] = Inr addr_a"
    by (simp add: cenv_immediate_def cenv0_def AF_UNIX_or_1_def encode_afunix_a)
  have h4: "c_connect cenv_immediate = 0" by (simp add: cenv_immediate_def cenv0_def)
  have h5: "c_has_proactor cenv_immediate" by (simp add: cenv_immediate_def cenv0_def)
  have k: "c_fileno cenv_immediate = 5" "\<not> c_wait_raises cenv_immediate"
    "c_enum cenv_immediate = 0" "c_iErrorCode cenv_immediate FD_CONNECT_BIT = 0"
    by (simp_all add: cenv_immediate_def cenv0_def)
  note r = connect_always_waits [OF h1 h2 h3 disjI1 [OF h4] h5]
  from conjunct1 [OF r] conjunct1 [OF conjunct2 [OF conjunct2 [OF r]]] h1 h2 h3 h4 h5 k
  show ?thesis by (simp add: Let_def AFUnixStream_init_def)
qed

text \<open>
  Claim C5 as the specification words it has the wait skipped when the connect
  completes at once; the code waits.
\<close>

theorem immediate_connect_counterexample:
  "c_connect cenv_immediate = 0
   \<and> open_unix_connection_win cenv_immediate [97]
     = (Inr \<lparr>stream_sock = 5, stream_closed = False\<rparr>,
        [NewSocket 5, SetBlocking 5, CreateEvent, EventSelect 5 48, Connect 5 addr_a,
         WaitForHandle, EnumNetworkEvents 5, CloseEvent])"
  by (simp add: connect_defs cenv_immediate_def cenv0_def encode_afunix_a)

section \<open>Accepting connections\<close>

lemma accept_all_drains:
  "\<forall>c \<in> set (takeWhile (\<lambda>c. c \<noteq> INVALID_SOCKET) cs). cb c \<noteq> Raises \<Longrightarrow>
     accept_all fd cb cs = (Continue, drain_spec fd cb cs)"
proof (induction cs)
  case Nil
  then show ?case by (simp add: drain_spec_def)
next
  case (Cons c cs)
  show ?case
  proof (cases "c = INVALID_SOCKET")
    case True
    then show ?thesis by (simp add: drain_spec_def)
  next
    case False
    with Cons.prems have nr: "cb c \<noteq> Raises"
      and rest: "\<forall>c \<in> set (takeWhile (\<lambda>c. c \<noteq> INVALID_SOCKET) cs). cb c \<noteq> Raises"
      by simp_all
    from Cons.IH [OF rest] have ih: "accept_all fd cb cs = (Continue, drain_spec fd cb cs)" .
    from nr False ih show ?thesis
      by (cases "cb c") (simp_all add: drain_spec_def dispatch_spec_def)
  qed
qed

lemma iteration_starts_wait: "\<exists>t. snd (accept_iteration fd cb w) = WaitForHandle # t"
  by (cases "accept_all fd cb (wk_accepts w)")
     (simp add: accept_iteration_def check_zero_def)

lemma accept_while_starts_wait: "\<exists>t. snd (accept_while fd cb False ws) = WaitForHandle # t"
proof (cases ws)
  case Nil
  then show ?thesis by simp
next
  case (Cons w rest)
  obtain s t where it: "accept_iteration fd cb w = (s, t)"
    by (cases "accept_iteration fd cb w") auto
  with iteration_starts_wait [of fd cb w] obtain t' where t: "t = WaitForHandle # t'"
    by auto
  obtain r u where rec: "accept_while fd cb (wk_closed_after w) rest = (r, u)"
    by (cases "accept_while fd cb (wk_closed_after w) rest") auto
  from Cons it t rec show ?thesis
    by (cases s) simp_all
qed

lemma no_wait_in_drain: "WaitForHandle \<notin> set (drain_spec fd cb cs)"
  by (auto simp: drain_spec_def dispatch_spec_def)

lemma win_one_accept:
  "length (filter (\<lambda>a. a = Accept serv) (snd (win_accept_iteration serv ww))) \<le> 1"
  by (cases "ww_cb ww") (simp_all add: win_accept_iteration_def Let_def)

text \<open>
  Claim C3, as the code has it.  In a wake-up of \<^verbatim>\<open>AFUnixServerWin._accept_loop\<close>
  where the wait and the event query succeed, \<^verbatim>\<open>FD_ACCEPT\<close> is set, \<^verbatim>\<open>FD_CLOSE\<close> is
  not, and no handler raises, the loop calls \<^verbatim>\<open>accept\<close> until it returns
  \<^verbatim>\<open>INVALID_SOCKET\<close>, wraps each handle into a stream and calls the handler on it (a
  coroutine becomes a task and is not awaited: there is no wait inside the drain);
  then it waits on the event again, unless the server was closed in the meantime:
  then the loop ends.  In a wake-up where the wait and the event query succeed and
  \<^verbatim>\<open>FD_CLOSE\<close> is set, the loop ends without a call of \<^verbatim>\<open>accept\<close>.  A pass of
  \<^verbatim>\<open>WindowsUnixServer._accept_loop\<close> calls \<^verbatim>\<open>accept\<close> at most once.
\<close>

theorem accept_drains:
  assumes "\<not> wk_wait_raises w" and "wk_enum w = 0"
    and "wk_lNetworkEvents w AND FD_CLOSE = 0"
    and "wk_lNetworkEvents w AND FD_ACCEPT \<noteq> 0"
    and "\<forall>c \<in> set (takeWhile (\<lambda>c. c \<noteq> INVALID_SOCKET) (wk_accepts w)). cb c \<noteq> Raises"
    and "\<not> wk_wait_raises w'" and "wk_enum w' = 0"
    and "wk_lNetworkEvents w' AND FD_CLOSE \<noteq> 0"
  shows "accept_iteration fd cb w
           = (Continue, [WaitForHandle, EnumNetworkEvents fd] @ drain_spec fd cb (wk_accepts w))
         \<and> WaitForHandle \<notin> set (drain_spec fd cb (wk_accepts w))
         \<and> (if wk_closed_after w then
               accept_while fd cb False (w # rest)
                 = (Returned,
                    [WaitForHandle, EnumNetworkEvents fd] @ drain_spec fd cb (wk_accepts w))
             else
               (\<exists>t. snd (accept_while fd cb False (w # rest))
                  = [WaitForHandle, EnumNetworkEvents fd] @ drain_spec fd cb (wk_accepts w)
                    @ [WaitForHandle] @ t))
         \<and> accept_iteration fd cb w' = (Break, [WaitForHandle, EnumNetworkEvents fd])
         \<and> accept_while fd cb False (w' # rest)
             = (Returned, [WaitForHandle, EnumNetworkEvents fd])
         \<and> length (filter (\<lambda>a. a = Accept serv) (snd (win_accept_iteration serv ww))) \<le> 1"
proof -
  have it: "accept_iteration fd cb w
           = (Continue, [WaitForHandle, EnumNetworkEvents fd] @ drain_spec fd cb (wk_accepts w))"
    using assms(1-4) accept_all_drains [OF assms(5), of fd]
    by (simp add: accept_iteration_def check_zero_def)
  have cl: "accept_iteration fd cb w' = (Break, [WaitForHandle, EnumNetworkEvents fd])"
    using assms(6-8) by (simp add: accept_iteration_def check_zero_def)
  have clw: "accept_while fd cb False (w' # rest)
             = (Returned, [WaitForHandle, EnumNetworkEvents fd])"
    using cl by simp
  have wh: "if wk_closed_after w then
               accept_while fd cb False (w # rest)
                 = (Returned,
                    [WaitForHandle, EnumNetworkEvents fd] @ drain_spec fd cb (wk_accepts w))
             else
               (\<exists>t. snd (accept_while fd cb False (w # rest))
                  = [WaitForHandle, EnumNetworkEvents fd] @ drain_spec fd cb (wk_accepts w)
                    @ [WaitForHandle] @ t)"
  proof (cases "wk_closed_after w")
    case True
    with it show ?thesis by simp
  next
    case False
    obtain r u where rec: "accept_while fd cb False rest = (r, u)"
      by (cases "accept_while fd cb False rest") auto
    with accept_while_starts_wait [of fd cb rest] obtain t where u: "u = WaitForHandle # t"
      by auto
    have "snd (accept_while fd cb False (w # rest))
        = [WaitForHandle, EnumNetworkEvents fd] @ drain_spec fd cb (wk_accepts w)
          @ [WaitForHandle] @ t"
      using it rec u False by simp
    with False show ?thesis by auto
  qed
  from it cl clw wh no_wait_in_drain [of fd cb "wk_accepts w"] win_one_accept [of serv ww]
  show ?thesis by blast
qed

theorem accept_drains_witness:
  "\<not> wk_wait_raises wk_accept2 \<and> wk_enum wk_accept2 = 0
   \<and> wk_lNetworkEvents wk_accept2 AND FD_CLOSE = 0
   \<and> wk_lNetworkEvents wk_accept2 AND FD_ACCEPT \<noteq> 0
   \<and> \<not> wk_wait_raises wk_accept_close \<and> wk_enum wk_accept_close = 0
   \<and> wk_lNetworkEvents wk_accept_close AND FD_CLOSE \<noteq> 0
   \<and> accept_iteration 3 (\<lambda>c. ReturnsCoroutine) wk_accept2
       = (Continue,
          [WaitForHandle, EnumNetworkEvents 3,
           Accept 3, WrapSocket 7, SetBlocking 7, CallHandler 7, CreateTask 7,
           Accept 3, WrapSocket 8, SetBlocking 8, CallHandler 8, CreateTask 8,
           Accept 3])
   \<and> accept_while 3 (\<lambda>c. ReturnsCoroutine) False [wk_accept_close]
       = (Returned, [WaitForHandle, EnumNetworkEvents 3])"
proof -
  have h1: "\<not> wk_wait_raises wk_accept2" by (simp add: wk_accept2_def)
  have h2: "wk_enum wk_accept2 = 0" by (simp add: wk_accept2_def)
  have h3: "wk_lNetworkEvents wk_accept2 AND FD_CLOSE = 0"
    by (simp add: wk_accept2_def FD_CLOSE_def)
  have h4: "wk_lNetworkEvents wk_accept2 AND FD_ACCEPT \<noteq> 0"
    by (simp add: wk_accept2_def FD_ACCEPT_def)
  have h5: "\<forall>c \<in> set (takeWhile (\<lambda>c. c \<noteq> INVALID_SOCKET) (wk_accepts wk_accept2)).
         (\<lambda>c. ReturnsCoroutine) c \<noteq> Raises" by simp
  have h6: "\<not> wk_wait_raises wk_accept_close" by (simp add: wk_accept_close_def)
  have h7: "wk_enum wk_accept_close = 0" by (simp add: wk_accept_close_def)
  have h8: "wk_lNetworkEvents wk_accept_close AND FD_CLOSE \<noteq> 0"
    by (simp add: wk_accept_close_def FD_CLOSE_def)
  have d: "drain_spec 3 (\<lambda>c. ReturnsCoroutine) (wk_accepts wk_accept2)
      = [Accept 3, WrapSocket 7, SetBlocking 7, CallHandler 7, CreateTask 7,
         Accept 3, WrapSocket 8, SetBlocking 8, CallHandler 8, CreateTask 8, Accept 3]"
    by (simp add: drain_spec_def dispatch_spec_def wk_accept2_def INVALID_SOCKET_def)
  note r = accept_drains [OF h1 h2 h3 h4 h5 h6 h7 h8, of 3 "[]" 3 "ww_accept 7"]
  from conjunct1 [OF r]
    conjunct1 [OF conjunct2 [OF conjunct2 [OF conjunct2 [OF conjunct2 [OF r]]]]]
    d h1 h2 h3 h4 h6 h7 h8
  show ?thesis by (simp del: accept_while.simps)
qed

text \<open>
  Claim C3 as the specification words it fails twice.  With \<^verbatim>\<open>FD_CLOSE\<close> set as
  well, \<^verbatim>\<open>AFUnixServerWin._accept_loop\<close> ends without a single \<^verbatim>\<open>accept\<close>.  And
  \<^verbatim>\<open>WindowsUnixServer._accept_loop\<close> goes back to waiting after each accepted
  connection, without an \<^verbatim>\<open>accept\<close> that reports none queued.
\<close>

theorem accept_drains_counterexample:
  "wk_lNetworkEvents wk_accept_close AND FD_ACCEPT \<noteq> 0
   \<and> accept_iteration 3 (\<lambda>c. ReturnsCoroutine) wk_accept_close
       = (Break, [WaitForHandle, EnumNetworkEvents 3])
   \<and> win_accept_while 3 9 True [ww_accept 7, ww_accept 8]
       = (Suspended,
          [CreateEvent, EventSelect 3 8, WaitForHandle, ResetEvent, Accept 3,
           WrapSocket 7, SetBlocking 7, ConnectAcceptedSocket 7, CallHandler 7, CreateTask 7,
           CreateEvent, EventSelect 3 8, WaitForHandle, ResetEvent, Accept 3,
           WrapSocket 8, SetBlocking 8, ConnectAcceptedSocket 8, CallHandler 8, CreateTask 8,
           CreateEvent, EventSelect 3 8, WaitForHandle])"
  by (simp add: accept_iteration_def check_zero_def wk_accept_close_def FD_ACCEPT_def FD_CLOSE_def
      win_accept_iteration_def ww_accept_def)

section \<open>The stale socket file\<close>




end
